theory Spec2Isabelle
  imports Complex_Main "HOL-Library.Multiset"
begin

section \<open>Data model\<close>

text \<open>
  The \<^verbatim>\<open>Role\<close> enum of the Prisma schema and the \<^verbatim>\<open>User\<close> model
  (\<^verbatim>\<open>type User\<close> in \<^verbatim>\<open>middleware/auth.ts\<close>). The column \<^verbatim>\<open>id\<close> is
  written \<open>id'\<close> (the name \<open>id\<close> is HOL's identity function). Timestamps are
  milliseconds since the epoch.
\<close>

datatype role = admin | moderator | user

record User =
  id' :: int
  first_name :: string
  last_name :: string
  email :: string
  password :: string
  role :: role
  created_at :: int
  updated_at :: int

text \<open>
  The projection every handler asks Prisma for with
  \<^verbatim>\<open>select: { id, first_name, last_name, email, role, created_at, updated_at }\<close>:
  the row without its password hash.
\<close>

record UserView =
  v_id :: int
  v_first_name :: string
  v_last_name :: string
  v_email :: string
  v_role :: role
  v_created_at :: int
  v_updated_at :: int

definition select_view :: "User \<Rightarrow> UserView" where
  "select_view u =
     \<lparr>v_id = id' u, v_first_name = first_name u, v_last_name = last_name u,
      v_email = email u, v_role = role u, v_created_at = created_at u,
      v_updated_at = updated_at u\<rparr>"

text \<open>
  The \<^verbatim>\<open>users\<close> table is the list of its rows; \<^verbatim>\<open>id\<close> is the primary key and
  \<^verbatim>\<open>email\<close> is \<^verbatim>\<open>@unique\<close>. \<^verbatim>\<open>prisma.user.findUnique\<close> returns the row or
  \<^verbatim>\<open>null\<close>.
\<close>

definition findUnique :: "User list \<Rightarrow> int \<Rightarrow> User option" where
  "findUnique rows i = find (\<lambda>u. id' u = i) rows"

definition findUnique_email :: "User list \<Rightarrow> string \<Rightarrow> User option" where
  "findUnique_email rows e = find (\<lambda>u. email u = e) rows"

text \<open>
  The column \<^verbatim>\<open>id\<close> is a 32-bit \<^verbatim>\<open>INTEGER\<close>. Every stored id is in that range, so
  an id outside it is the id of no row; Prisma does not answer \<^verbatim>\<open>null\<close> for such an
  id, the call throws.
\<close>

definition int4 :: "int \<Rightarrow> bool" where
  "int4 i = (- 2147483648 \<le> i \<and> i \<le> 2147483647)"

text \<open>
  An HTTP answer is a status code and a JSON body. The bodies the handlers send are
  \<^verbatim>\<open>{ message }\<close>, \<^verbatim>\<open>{ user }\<close> and \<^verbatim>\<open>{ message, user }\<close>.
\<close>

datatype reply = Message string | UserReply UserView | MessageUser string UserView

type_synonym response = "nat \<times> reply"

datatype http_method = GET | POST | PUT | DELETE

section \<open>Middleware (\<^verbatim>\<open>middleware/auth.ts\<close>)\<close>

text \<open>
  \<^verbatim>\<open>authenticate\<close>: the cookie is absent, or \<^verbatim>\<open>jwt.verify\<close> throws, or it
  yields the payload's \<^verbatim>\<open>userId\<close>; the user is then read from the database.
\<close>

datatype token = NoToken | InvalidToken | Token int

definition authenticate :: "User list \<Rightarrow> token \<Rightarrow> response + User" where
  "authenticate rows tok =
     (case tok of
        NoToken \<Rightarrow> Inl (401, Message ''Authentication required'')
      | InvalidToken \<Rightarrow> Inl (401, Message ''Invalid or expired token'')
      | Token uid \<Rightarrow>
          (case findUnique rows uid of
             None \<Rightarrow> Inl (401, Message ''User not found'')
           | Some u \<Rightarrow> Inr u))"

text \<open>
  \<^verbatim>\<open>checkUserPermissions\<close>: either \<^verbatim>\<open>next()\<close> is called or a response is sent.
  \<open>targetUserId\<close> is \<^verbatim>\<open>parseInt(req.params.id)\<close>, taken to be a decimal numeral.
  The moderator branch returns only inside its two inner tests; otherwise control
  falls through to the test for basic users and then to the final denial.
\<close>

datatype verdict = Next | Respond nat string

definition checkUserPermissions ::
  "User list \<Rightarrow> User option \<Rightarrow> http_method \<Rightarrow> int \<Rightarrow> verdict" where
  "checkUserPermissions rows req_user method targetUserId =
     (case req_user of
        None \<Rightarrow> Respond 401 ''Authentication required''
      | Some usr \<Rightarrow>
          if role usr = admin then
            (if method = DELETE \<and> id' usr = targetUserId
             then Respond 403 ''Admins cannot delete their own account''
             else Next)
          else
            let basic =
              (if role usr = user then
                 (if id' usr \<noteq> targetUserId then Respond 403 ''Access denied''
                  else if method = DELETE
                    then Respond 403 ''Basic users cannot delete accounts''
                  else Next)
               else Respond 403 ''Access denied'')
            in
            if role usr = moderator then
              (if method = DELETE then
                 (case findUnique rows targetUserId of
                    None \<Rightarrow> Respond 404 ''User not found''
                  | Some targetUser \<Rightarrow>
                      if role targetUser \<noteq> user
                      then Respond 403 ''Moderators can only delete basic users''
                      else Next)
               else if id' usr = targetUserId then Next
               else basic)
            else basic)"

section \<open>Reading one user (\<^verbatim>\<open>GET /users/:id\<close> in \<^verbatim>\<open>routes/users.ts\<close>)\<close>

text \<open>
  The handler: the lookup, the 404 for no row, the permission test, the record. When the
  lookup throws (an id outside the column's range) the \<^verbatim>\<open>catch\<close> answers 500.
\<close>

definition getUserById :: "User list \<Rightarrow> User \<Rightarrow> int \<Rightarrow> response" where
  "getUserById rows req_user i =
     (case findUnique rows i of
        None \<Rightarrow>
          if int4 i then (404, Message ''User not found'')
          else (500, Message ''Error fetching user'')
      | Some u \<Rightarrow>
          if role req_user = user \<and> id' req_user \<noteq> i
          then (403, Message ''Access denied'')
          else (200, UserReply (select_view u)))"

text \<open>The route \<^verbatim>\<open>router.get('/:id', authenticate, handler)\<close>.\<close>

definition get_user_route :: "User list \<Rightarrow> token \<Rightarrow> int \<Rightarrow> response" where
  "get_user_route rows tok i =
     (case authenticate rows tok of
        Inl r \<Rightarrow> r
      | Inr usr \<Rightarrow> getUserById rows usr i)"

section \<open>Updating a user (\<^verbatim>\<open>PUT /users/:id\<close> in \<^verbatim>\<open>routes/users.ts\<close>)\<close>

text \<open>
  The request body \<^verbatim>\<open>{ first_name, last_name, email, role, password }\<close>: each
  field is a string or absent. A field is used when it is truthy, that is, present and
  not the empty string.
\<close>

record update_body =
  b_first_name :: "string option"
  b_last_name :: "string option"
  b_email :: "string option"
  b_role :: "string option"
  b_password :: "string option"

definition truthy :: "string option \<Rightarrow> bool" where
  "truthy v = (case v of None \<Rightarrow> False | Some s \<Rightarrow> s \<noteq> [])"

text \<open>The object \<^verbatim>\<open>updates\<close> that the handler fills and hands to Prisma.\<close>

record updates =
  u_first_name :: "string option"
  u_last_name :: "string option"
  u_email :: "string option"
  u_role :: "string option"
  u_password :: "string option"

definition no_updates :: updates where
  "no_updates = \<lparr>u_first_name = None, u_last_name = None, u_email = None,
                  u_role = None, u_password = None\<rparr>"

definition text_of :: "string option \<Rightarrow> string" where
  "text_of v = (case v of None \<Rightarrow> [] | Some s \<Rightarrow> s)"

definition includes_at :: "string \<Rightarrow> bool" where
  "includes_at s = (CHR ''@'' \<in> set s)"

text \<open>
  The password rule: \<^verbatim>\<open>password.length < 8 || !/[a-z]/.test(password) ||
  !/[A-Z]/.test(password)\<close> rejects.
\<close>

definition hasLowerCase :: "string \<Rightarrow> bool" where
  "hasLowerCase p = list_ex (\<lambda>c. 97 \<le> (of_char c :: nat) \<and> (of_char c :: nat) \<le> 122) p"

definition hasUpperCase :: "string \<Rightarrow> bool" where
  "hasUpperCase p = list_ex (\<lambda>c. 65 \<le> (of_char c :: nat) \<and> (of_char c :: nat) \<le> 90) p"

definition password_rejected :: "string \<Rightarrow> bool" where
  "password_rejected p = (length p < 8 \<or> \<not> hasLowerCase p \<or> \<not> hasUpperCase p)"

definition password_message :: string where
  "password_message = ''Password must be at least 8 characters long and contain both uppercase and lowercase letters''"

definition role_of_string :: "string \<Rightarrow> role option" where
  "role_of_string s =
     (if s = ''admin'' then Some admin
      else if s = ''moderator'' then Some moderator
      else if s = ''user'' then Some user
      else None)"

text \<open>
  \<^verbatim>\<open>prisma.user.update({ where: { id }, data: updates })\<close> against the schema: the
  call throws (\<open>None\<close>) when \<^verbatim>\<open>role\<close> is not a value of the enum, when a string
  does not fit its column (\<^verbatim>\<open>VarChar(100)\<close> for the names, \<^verbatim>\<open>VarChar(255)\<close> for
  the email), when another row already has the email (\<^verbatim>\<open>@unique\<close>), or when no
  row has the id. A string fits a \<^verbatim>\<open>VarChar(n)\<close> column when everything after its
  first \<open>n\<close> characters is spaces; PostgreSQL then stores the first \<open>n\<close>
  characters. Otherwise the fields present in \<open>updates\<close> are written,
  \<^verbatim>\<open>updated_at\<close> (\<^verbatim>\<open>@updatedAt\<close>) becomes the current time, and the new row is
  returned. With no field in \<open>updates\<close> nothing is written and \<^verbatim>\<open>updated_at\<close>
  stays.
\<close>

definition too_long :: "nat \<Rightarrow> string option \<Rightarrow> bool" where
  "too_long n v =
     (case v of None \<Rightarrow> False | Some s \<Rightarrow> list_ex (\<lambda>c. c \<noteq> CHR '' '') (drop n s))"

definition fit :: "nat \<Rightarrow> string \<Rightarrow> string" where
  "fit n s = take n s"

definition nothing_to_write :: "updates \<Rightarrow> bool" where
  "nothing_to_write upd =
     (u_first_name upd = None \<and> u_last_name upd = None \<and> u_email upd = None
      \<and> u_role upd = None \<and> u_password upd = None)"

definition write_fields :: "int \<Rightarrow> updates \<Rightarrow> role option \<Rightarrow> User \<Rightarrow> User" where
  "write_fields now upd new_role u =
     (if nothing_to_write upd then u
      else
        u\<lparr>first_name := (case u_first_name upd of None \<Rightarrow> first_name u | Some s \<Rightarrow> fit 100 s),
          last_name := (case u_last_name upd of None \<Rightarrow> last_name u | Some s \<Rightarrow> fit 100 s),
          email := (case u_email upd of None \<Rightarrow> email u | Some s \<Rightarrow> fit 255 s),
          password := (case u_password upd of None \<Rightarrow> password u | Some s \<Rightarrow> s),
          role := (case new_role of None \<Rightarrow> role u | Some r \<Rightarrow> r),
          updated_at := now\<rparr>)"

definition email_taken :: "User list \<Rightarrow> int \<Rightarrow> string option \<Rightarrow> bool" where
  "email_taken rows i v =
     (case v of None \<Rightarrow> False
      | Some e \<Rightarrow> list_ex (\<lambda>u. id' u \<noteq> i \<and> email u = fit 255 e) rows)"

definition prisma_user_update ::
  "int \<Rightarrow> User list \<Rightarrow> int \<Rightarrow> updates \<Rightarrow> (User \<times> User list) option" where
  "prisma_user_update now rows i upd =
     (case findUnique rows i of
        None \<Rightarrow> None
      | Some u \<Rightarrow>
          if (case u_role upd of None \<Rightarrow> False | Some s \<Rightarrow> role_of_string s = None)
             \<or> too_long 100 (u_first_name upd) \<or> too_long 100 (u_last_name upd)
             \<or> too_long 255 (u_email upd) \<or> email_taken rows i (u_email upd)
          then None
          else
            let new_role = (case u_role upd of None \<Rightarrow> None | Some s \<Rightarrow> role_of_string s)
            in Some (write_fields now upd new_role u,
                     map (\<lambda>r. if id' r = i then write_fields now upd new_role r else r) rows))"

text \<open>
  The handler. \<open>hash\<close> stands for \<^verbatim>\<open>bcrypt.hash(password, salt)\<close> with the salt of
  this request and \<open>now\<close> for the clock. It returns the response and the table.
  The steps are the source's, in its order: existence (404, or 500 from the
  \<^verbatim>\<open>catch\<close> when the lookup throws), the names, the email with
  its format test (400), the role guard, the password with its rule (400), the update
  (500 from the \<^verbatim>\<open>catch\<close> when it throws) and the success answer.
\<close>

definition updateUser ::
  "(string \<Rightarrow> string) \<Rightarrow> int \<Rightarrow> User list \<Rightarrow> User \<Rightarrow> int \<Rightarrow> update_body
     \<Rightarrow> response \<times> User list" where
  "updateUser hash now rows req_user i body =
     (case findUnique rows i of
        None \<Rightarrow>
          if int4 i then ((404, Message ''User not found''), rows)
          else ((500, Message ''Error updating user''), rows)
      | Some existingUser \<Rightarrow>
          let u1 = (if truthy (b_first_name body)
                    then no_updates\<lparr>u_first_name := b_first_name body\<rparr> else no_updates);
              u2 = (if truthy (b_last_name body)
                    then u1\<lparr>u_last_name := b_last_name body\<rparr> else u1)
          in
          if truthy (b_email body) \<and> \<not> includes_at (text_of (b_email body))
          then ((400, Message ''Invalid email format''), rows)
          else
            let u3 = (if truthy (b_email body) then u2\<lparr>u_email := b_email body\<rparr> else u2);
                u4 = (if truthy (b_role body)
                         \<and> (role req_user = admin
                            \<or> (role req_user = moderator \<and> role existingUser = user))
                      then u3\<lparr>u_role := b_role body\<rparr> else u3)
            in
            if truthy (b_password body) \<and> password_rejected (text_of (b_password body))
            then ((400, Message password_message), rows)
            else
              let u5 = (if truthy (b_password body)
                        then u4\<lparr>u_password := Some (hash (text_of (b_password body)))\<rparr>
                        else u4)
              in
              (case prisma_user_update now rows i u5 of
                 None \<Rightarrow> ((500, Message ''Error updating user''), rows)
               | Some (updatedUser, rows') \<Rightarrow>
                   ((200, MessageUser ''User updated successfully'' (select_view updatedUser)),
                    rows')))"

text \<open>
  The route \<^verbatim>\<open>router.put('/:id', authenticate, checkUserPermissions, handler)\<close>.
\<close>

definition put_user_route ::
  "(string \<Rightarrow> string) \<Rightarrow> int \<Rightarrow> User list \<Rightarrow> token \<Rightarrow> int \<Rightarrow> update_body
     \<Rightarrow> response \<times> User list" where
  "put_user_route hash now rows tok i body =
     (case authenticate rows tok of
        Inl r \<Rightarrow> (r, rows)
      | Inr usr \<Rightarrow>
          (case checkUserPermissions rows (Some usr) PUT i of
             Respond s m \<Rightarrow> ((s, Message m), rows)
           | Next \<Rightarrow> updateUser hash now rows usr i body))"

section \<open>Logging in (\<^verbatim>\<open>POST /auth/login\<close> in \<^verbatim>\<open>routes/auth.ts\<close>)\<close>

text \<open>
  The body \<^verbatim>\<open>{ email, password }\<close>; each field is a string or absent. The answer is
  a status, a JSON body and the \<^verbatim>\<open>token\<close> cookie when one is set (the signed payload
  \<^verbatim>\<open>{ userId, role }\<close>). \<open>compare\<close> stands for \<^verbatim>\<open>bcrypt.compare\<close>.
  \<^verbatim>\<open>findUnique({ where: { email } })\<close> throws on an absent email and
  \<^verbatim>\<open>bcrypt.compare\<close> throws on an absent password; the \<^verbatim>\<open>catch\<close> answers 500.
\<close>

record login_body =
  l_email :: "string option"
  l_password :: "string option"

record login_response =
  l_status :: nat
  l_reply :: reply
  l_cookie :: "(int \<times> role) option"

definition login ::
  "(string \<Rightarrow> string \<Rightarrow> bool) \<Rightarrow> User list \<Rightarrow> login_body \<Rightarrow> login_response" where
  "login compare rows body =
     (case l_email body of
        None \<Rightarrow> \<lparr>l_status = 500, l_reply = Message ''Error during login'', l_cookie = None\<rparr>
      | Some e \<Rightarrow>
          (case findUnique_email rows e of
             None \<Rightarrow>
               \<lparr>l_status = 401, l_reply = Message ''Invalid credentials'', l_cookie = None\<rparr>
           | Some u \<Rightarrow>
               (case l_password body of
                  None \<Rightarrow>
                    \<lparr>l_status = 500, l_reply = Message ''Error during login'',
                     l_cookie = None\<rparr>
                | Some p \<Rightarrow>
                    if \<not> compare p (password u)
                    then \<lparr>l_status = 401, l_reply = Message ''Invalid credentials'',
                          l_cookie = None\<rparr>
                    else \<lparr>l_status = 200,
                          l_reply = MessageUser ''Login successful'' (select_view u),
                          l_cookie = Some (id' u, role u)\<rparr>)))"

section \<open>Writing the audit trail (\<^verbatim>\<open>logUserAction\<close>, \<^verbatim>\<open>logUserEdit\<close>)\<close>

text \<open>
  \<^verbatim>\<open>oldData\<close> and \<^verbatim>\<open>newData\<close> are typed \<^verbatim>\<open>any\<close>: JavaScript objects. The
  values of a user row are strings, numbers and \<^verbatim>\<open>Date\<close> objects. A \<^verbatim>\<open>Date\<close>
  is an object: it carries its identity next to its instant, and \<^verbatim>\<open>===\<close> on two
  objects compares the identities. Numbers are integers (ids).
\<close>

datatype jsval = Undefined | Null | Bool bool | Num int | Str string | Date nat int

fun strict_eq :: "jsval \<Rightarrow> jsval \<Rightarrow> bool" where
  "strict_eq (Date r t) (Date r' t') = (r = r')"
| "strict_eq a b = (a = b)"

definition primitive :: "jsval \<Rightarrow> bool" where
  "primitive v = (case v of Date r t \<Rightarrow> False | _ \<Rightarrow> True)"

text \<open>
  An object is the list of the property assignments that built it. A property holds
  the value assigned last. \<^verbatim>\<open>Object.keys\<close> lists each name once: first the names
  that are array indices (canonical decimal numerals below 4294967295) in ascending
  numeric order, then the other names in the order of their first assignment.
\<close>

type_synonym js_object = "(string \<times> jsval) list"

definition get :: "js_object \<Rightarrow> string \<Rightarrow> jsval" where
  "get obj key = (case map_of (rev obj) key of None \<Rightarrow> Undefined | Some v \<Rightarrow> v)"

definition digit :: "char \<Rightarrow> bool" where
  "digit c = (48 \<le> (of_char c :: nat) \<and> (of_char c :: nat) \<le> 57)"

definition decimal :: "string \<Rightarrow> nat" where
  "decimal s = foldl (\<lambda>n c. 10 * n + ((of_char c :: nat) - 48)) 0 s"

definition array_index :: "string \<Rightarrow> bool" where
  "array_index s =
     (case s of
        [] \<Rightarrow> False
      | c # cs \<Rightarrow>
          list_all digit s \<and> (c \<noteq> CHR ''0'' \<or> cs = []) \<and> decimal s < 4294967295)"

definition first_occurrences :: "string list \<Rightarrow> string list" where
  "first_occurrences ks = rev (remdups (rev ks))"

definition object_keys :: "js_object \<Rightarrow> string list" where
  "object_keys obj =
     (let names = first_occurrences (map fst obj)
      in sort_key decimal (filter array_index names)
         @ filter (\<lambda>k. \<not> array_index k) names)"

record change =
  field :: string
  oldValue :: jsval
  newValue :: jsval

datatype AuditActionType =
  LOGIN_SUCCESS | LOGIN_FAILURE | LOGOUT | CREATE_USER | EDIT_USER | DELETE_USER

definition AUDIT_TYPES :: "AuditActionType \<Rightarrow> string" where
  "AUDIT_TYPES a =
     (case a of
        LOGIN_SUCCESS \<Rightarrow> ''LOGIN_SUCCESS''
      | LOGIN_FAILURE \<Rightarrow> ''LOGIN_FAILURE''
      | LOGOUT \<Rightarrow> ''LOGOUT''
      | CREATE_USER \<Rightarrow> ''CREATE_USER''
      | EDIT_USER \<Rightarrow> ''EDIT_USER''
      | DELETE_USER \<Rightarrow> ''DELETE_USER'')"

text \<open>
  The \<^verbatim>\<open>AuditLog\<close> model. \<^verbatim>\<open>metadata\<close> is JSON: the empty object, the
  \<^verbatim>\<open>{ changes }\<close> of an edit, or another object. The table keeps its rows and the
  next value of the \<^verbatim>\<open>autoincrement\<close> sequence.
\<close>

datatype metadata = EmptyObject | Changes "change list" | Details js_object

record AuditLog =
  log_id :: int
  actor_user_id :: int
  action_type :: string
  target_user_id :: "int option"
  metadata :: metadata
  ip_address :: "string option"
  log_created_at :: int

record audit_table =
  logs :: "AuditLog list"
  next_id :: int

text \<open>
  \<^verbatim>\<open>prisma.auditLog.create\<close> throws when \<^verbatim>\<open>actor_user_id\<close> or a given
  \<^verbatim>\<open>target_user_id\<close> is the id of no user (the foreign keys), or when
  \<^verbatim>\<open>ip_address\<close> does not fit its \<^verbatim>\<open>VarChar(45)\<close>. \<^verbatim>\<open>logUserAction\<close> returns
  the promise of that call: \<open>None\<close> stands for its rejection.
\<close>

definition create_rejected :: "User list \<Rightarrow> int \<Rightarrow> int option \<Rightarrow> string option \<Rightarrow> bool" where
  "create_rejected users actorId targetId ipAddress =
     (findUnique users actorId = None
      \<or> (case targetId of None \<Rightarrow> False | Some t \<Rightarrow> findUnique users t = None)
      \<or> too_long 45 ipAddress)"

definition logUserAction ::
  "int \<Rightarrow> User list \<Rightarrow> audit_table \<Rightarrow> int \<Rightarrow> AuditActionType \<Rightarrow> int option
     \<Rightarrow> metadata option \<Rightarrow> string option \<Rightarrow> (AuditLog \<times> audit_table) option" where
  "logUserAction now users tbl actorId actionType targetId md ipAddress =
     (if create_rejected users actorId targetId ipAddress then None
      else
        let entry =
          \<lparr>log_id = next_id tbl, actor_user_id = actorId,
           action_type = AUDIT_TYPES actionType, target_user_id = targetId,
           metadata = (case md of None \<Rightarrow> EmptyObject | Some m \<Rightarrow> m),
           ip_address = map_option (fit 45) ipAddress, log_created_at = now\<rparr>
        in Some (entry, tbl\<lparr>logs := logs tbl @ [entry], next_id := next_id tbl + 1\<rparr>))"

text \<open>
  The loop \<^verbatim>\<open>for (const key of Object.keys(newData))\<close> with its accumulator
  \<^verbatim>\<open>changes\<close>, and \<^verbatim>\<open>logUserEdit\<close>, which calls \<^verbatim>\<open>logUserAction\<close> only when
  the loop pushed something. The result is \<open>None\<close> when that call is rejected, and
  otherwise the entry written, if any, with the table.
\<close>

fun collect_changes :: "js_object \<Rightarrow> js_object \<Rightarrow> string list \<Rightarrow> change list \<Rightarrow> change list" where
  "collect_changes oldData newData [] changes = changes"
| "collect_changes oldData newData (key # keys) changes =
     collect_changes oldData newData keys
       (if \<not> strict_eq (get oldData key) (get newData key)
        then changes @ [\<lparr>field = key, oldValue = get oldData key,
                          newValue = get newData key\<rparr>]
        else changes)"

definition logUserEdit ::
  "int \<Rightarrow> User list \<Rightarrow> audit_table \<Rightarrow> int \<Rightarrow> int \<Rightarrow> js_object \<Rightarrow> js_object
     \<Rightarrow> string option \<Rightarrow> (AuditLog option \<times> audit_table) option" where
  "logUserEdit now users tbl actorId targetId oldData newData ipAddress =
     (let changes = collect_changes oldData newData (object_keys newData) []
      in if length changes > 0
         then (case logUserAction now users tbl actorId EDIT_USER (Some targetId)
                      (Some (Changes changes)) ipAddress of
                 None \<Rightarrow> None
               | Some (entry, tbl') \<Rightarrow> Some (Some entry, tbl'))
         else Some (None, tbl))"

text \<open>The value of \<^verbatim>\<open>changes\<close> when the loop of \<^verbatim>\<open>logUserEdit\<close> ends.\<close>

definition edit_changes :: "js_object \<Rightarrow> js_object \<Rightarrow> change list" where
  "edit_changes oldData newData = collect_changes oldData newData (object_keys newData) []"

section \<open>Reading the audit trail (\<^verbatim>\<open>GET /audit/logs\<close>)\<close>

text \<open>
  The query string: \<^verbatim>\<open>from\<close> and \<^verbatim>\<open>to\<close> as the instants \<^verbatim>\<open>new Date\<close> makes of
  them, \<^verbatim>\<open>action_type\<close>, and \<^verbatim>\<open>page\<close> and \<^verbatim>\<open>limit\<close> as \<^verbatim>\<open>parseInt\<close>
  reads them (decimal numerals), absent ones defaulting to 1 and 20.
\<close>

record log_query =
  q_from :: "int option"
  q_to :: "int option"
  q_action_type :: "string option"
  q_page :: "int option"
  q_limit :: "int option"

record log_filters =
  w_action_type :: "string option"
  w_gte :: "int option"
  w_lte :: "int option"

definition build_filters :: "log_query \<Rightarrow> log_filters" where
  "build_filters q =
     \<lparr>w_action_type = (if truthy (q_action_type q) then q_action_type q else None),
      w_gte = q_from q, w_lte = q_to q\<rparr>"

definition matches :: "log_filters \<Rightarrow> AuditLog \<Rightarrow> bool" where
  "matches f e =
     ((case w_action_type f of None \<Rightarrow> True | Some a \<Rightarrow> action_type e = a)
      \<and> (case w_gte f of None \<Rightarrow> True | Some t \<Rightarrow> t \<le> log_created_at e)
      \<and> (case w_lte f of None \<Rightarrow> True | Some t \<Rightarrow> log_created_at e \<le> t))"

text \<open>
  \<^verbatim>\<open>orderBy: { created_at: 'desc' }\<close> names one key: the rows come newest first.
  The order among rows with the same \<^verbatim>\<open>created_at\<close> is not in the query; the
  database decides it. The model keeps such rows in the order of the list, which stands
  for that decision, whatever it is (any order the query admits is the result for some
  order of the list, \<open>order_newest_first_admits\<close> below). Nothing stated below
  depends on the order among such rows.
\<close>

definition order_newest_first :: "AuditLog list \<Rightarrow> AuditLog list" where
  "order_newest_first rows = sort_key (\<lambda>e. - log_created_at e) rows"

text \<open>
  \<^verbatim>\<open>prisma.auditLog.findMany({ where, orderBy, skip, take })\<close>. Prisma rejects a
  negative \<^verbatim>\<open>skip\<close> (the call throws); a negative \<^verbatim>\<open>take\<close> counts from the end of
  the ordered rows. The \<^verbatim>\<open>include\<close> of the actor's and target's names is left out.
\<close>

definition findMany :: "log_filters \<Rightarrow> AuditLog list \<Rightarrow> int \<Rightarrow> int \<Rightarrow> AuditLog list option" where
  "findMany f table skip take_n =
     (if skip < 0 then None
      else
        let ordered = order_newest_first (filter (matches f) table)
        in if 0 \<le> take_n
           then Some (take (nat take_n) (drop (nat skip) ordered))
           else Some (rev (take (nat (- take_n)) (drop (nat skip) (rev ordered)))))"

definition count_where :: "log_filters \<Rightarrow> AuditLog list \<Rightarrow> int" where
  "count_where f table = int (length (filter (matches f) table))"

text \<open>
  \<^verbatim>\<open>Math.ceil(total / limitNum)\<close> on numbers: a division by zero gives
  \<^verbatim>\<open>Infinity\<close>, or \<^verbatim>\<open>NaN\<close> for \<^verbatim>\<open>0 / 0\<close>.
\<close>

datatype jsnumber = Finite int | PosInfinity | NaN

definition math_ceil_div :: "int \<Rightarrow> int \<Rightarrow> jsnumber" where
  "math_ceil_div n limitNum =
     (if limitNum = 0 then (if n = 0 then NaN else PosInfinity)
      else Finite (- ((- n) div limitNum)))"

record pagination =
  p_total :: int
  p_page :: int
  p_limit :: int
  p_pages :: jsnumber

datatype audit_reply = Logs "AuditLog list" pagination | Failure string

definition getAuditLogs :: "AuditLog list \<Rightarrow> log_query \<Rightarrow> nat \<times> audit_reply" where
  "getAuditLogs table q =
     (let filters = build_filters q;
          pageNum = (case q_page q of None \<Rightarrow> 1 | Some p \<Rightarrow> p);
          limitNum = (case q_limit q of None \<Rightarrow> 20 | Some l \<Rightarrow> l)
      in case findMany filters table ((pageNum - 1) * limitNum) limitNum of
           None \<Rightarrow> (500, Failure ''Error fetching audit logs'')
         | Some found \<Rightarrow>
             let total' = count_where filters table
             in (200, Logs found
                        \<lparr>p_total = total', p_page = pageNum, p_limit = limitNum,
                         p_pages = math_ceil_div total' limitNum\<rparr>))"

text \<open>
  The ordered rows that \<^verbatim>\<open>skip\<close> and \<^verbatim>\<open>take\<close> cut the page from, and the
  \<^verbatim>\<open>logs\<close> of an answer (none when the answer is an error).
\<close>

definition matching_newest_first :: "log_query \<Rightarrow> AuditLog list \<Rightarrow> AuditLog list" where
  "matching_newest_first q table = order_newest_first (filter (matches (build_filters q)) table)"

definition logs_of :: "nat \<times> audit_reply \<Rightarrow> AuditLog list" where
  "logs_of r = (case snd r of Logs found pg \<Rightarrow> found | Failure m \<Rightarrow> [])"

section \<open>Example rows\<close>

text \<open>A stand-in for the salted hash, and two request bodies.\<close>

definition demo_hash :: "string \<Rightarrow> string" where
  "demo_hash p = ''$2a$10$'' @ p"

definition empty_body :: update_body where
  "empty_body = \<lparr>b_first_name = None, b_last_name = None, b_email = None,
                  b_role = None, b_password = None\<rparr>"

definition make_me_admin :: update_body where
  "make_me_admin = empty_body\<lparr>b_first_name := Some ''Eve'', b_role := Some ''admin''\<rparr>"

definition demo_compare :: "string \<Rightarrow> string \<Rightarrow> bool" where
  "demo_compare p h = (demo_hash p = h)"

text \<open>
  Images of a user for the edit diff: a row as \<^verbatim>\<open>findUnique\<close> returns it (with the
  password hash) and rows as the \<^verbatim>\<open>select\<close> of the update returns them (without).
\<close>

definition image_before :: js_object where
  "image_before = [(''id'', Num 2), (''email'', Str ''a@x.com''), (''password'', Str ''h1'')]"

definition image_same :: js_object where
  "image_same = [(''id'', Num 2), (''email'', Str ''a@x.com'')]"

definition image_after :: js_object where
  "image_after = [(''id'', Num 2), (''email'', Str ''b@x.com'')]"

definition empty_trail :: audit_table where
  "empty_trail = \<lparr>logs = [], next_id = 1\<rparr>"

text \<open>
  Audit rows: number \<open>n\<close> written at instant \<open>1000 * n\<close>, twenty-five of them.
\<close>

definition entry_at :: "int \<Rightarrow> int \<Rightarrow> AuditLog" where
  "entry_at n t =
     \<lparr>log_id = n, actor_user_id = 1, action_type = ''LOGIN_SUCCESS'',
      target_user_id = None, metadata = EmptyObject, ip_address = None,
      log_created_at = t\<rparr>"

definition trail25 :: "AuditLog list" where
  "trail25 = map (\<lambda>n. entry_at (int n) (1000 * int n)) [1..<26]"

definition all_logs :: log_query where
  "all_logs = \<lparr>q_from = None, q_to = None, q_action_type = None,
                q_page = None, q_limit = None\<rparr>"

definition ada :: User where
  "ada = \<lparr>id' = 1, first_name = ''Ada'', last_name = ''Root'', email = ''ada@x.com'',
          password = ''h1'', role = admin, created_at = 1000, updated_at = 1000\<rparr>"

definition bob :: User where
  "bob = \<lparr>id' = 3, first_name = ''Bob'', last_name = ''Mod'', email = ''bob@x.com'',
          password = ''h3'', role = moderator, created_at = 2000, updated_at = 2000\<rparr>"

definition cy :: User where
  "cy = \<lparr>id' = 4, first_name = ''Cy'', last_name = ''Basic'', email = ''cy@x.com'',
         password = ''h4'', role = user, created_at = 3000, updated_at = 3000\<rparr>"

definition dee :: User where
  "dee = \<lparr>id' = 5, first_name = ''Dee'', last_name = ''Basic'', email = ''dee@x.com'',
          password = ''h5'', role = user, created_at = 4000, updated_at = 4000\<rparr>"

definition directory :: "User list" where
  "directory = [ada, bob, cy, dee]"

section \<open>Lookup facts\<close>

lemma findUnique_id: "findUnique rows i = Some u \<Longrightarrow> id' u = i"
  unfolding findUnique_def by (induction rows) (auto split: if_splits)

lemma findUnique_mem: "findUnique rows i = Some u \<Longrightarrow> u \<in> set rows"
  unfolding findUnique_def by (induction rows) (auto split: if_splits)

lemma authenticate_Inr:
  "authenticate rows tok = Inr usr \<Longrightarrow> \<exists>uid. tok = Token uid \<and> findUnique rows uid = Some usr"
  unfolding authenticate_def by (auto split: token.splits option.splits)

lemmas example_rows = directory_def ada_def bob_def cy_def dee_def

section \<open>Deleting a user: the decision\<close>

text \<open>
  C4, as the code decides it. For a target that exists, a \<^verbatim>\<open>DELETE\<close> by an
  admin is let through except on the admin's own id (403 "Admins cannot delete their
  own account"); by a moderator it is let through exactly when the target's role is
  \<open>user\<close> (403 "Moderators can only delete basic users" otherwise); by a basic user
  it is always refused with 403, the message being "Basic users cannot delete
  accounts" only when the target is the actor's own account and "Access denied" for
  any other target, because the id test comes first.
\<close>

theorem delete_decision:
  assumes "findUnique rows tid = Some target"
  shows "checkUserPermissions rows (Some actor) DELETE tid =
     (case role actor of
        admin \<Rightarrow>
          if id' target = id' actor
          then Respond 403 ''Admins cannot delete their own account'' else Next
      | moderator \<Rightarrow>
          if role target = user then Next
          else Respond 403 ''Moderators can only delete basic users''
      | user \<Rightarrow>
          if id' target = id' actor
          then Respond 403 ''Basic users cannot delete accounts''
          else Respond 403 ''Access denied'')"
proof -
  have tid: "id' target = tid"
    using assms by (rule findUnique_id)
  show ?thesis
  proof (cases "role actor")
    case admin
    then show ?thesis using tid by (auto simp: checkUserPermissions_def)
  next
    case moderator
    then show ?thesis using assms by (simp add: checkUserPermissions_def)
  next
    case user
    then show ?thesis using tid by (auto simp: checkUserPermissions_def)
  qed
qed

theorem delete_decision_witness:
  "findUnique directory 4 = Some cy
   \<and> checkUserPermissions directory (Some bob) DELETE 4 = Next
   \<and> checkUserPermissions directory (Some ada) DELETE 4 = Next
   \<and> checkUserPermissions directory (Some cy) DELETE 4
       = Respond 403 ''Basic users cannot delete accounts''"
proof -
  have h: "findUnique directory 4 = Some cy"
    by (simp add: findUnique_def example_rows)
  show ?thesis
    using h delete_decision [OF h, of bob] delete_decision [OF h, of ada]
      delete_decision [OF h, of cy]
    by (simp add: example_rows)
qed

text \<open>
  The claim as written gives the reason "basic users cannot delete accounts" for every
  delete by a basic user. Dee (id 5, role \<open>user\<close>) deleting Cy (id 4): the answer is
  "Access denied".
\<close>

theorem delete_by_user_counterexample:
  "findUnique directory 4 = Some cy \<and> role dee = user
   \<and> checkUserPermissions directory (Some dee) DELETE 4 = Respond 403 ''Access denied''
   \<and> checkUserPermissions directory (Some dee) DELETE 4
       \<noteq> Respond 403 ''Basic users cannot delete accounts''"
  by (simp add: checkUserPermissions_def findUnique_def example_rows)

section \<open>Updating a user: the permission check\<close>

text \<open>
  C3 at the input where the code departs from it. Bob (id 3, role \<open>moderator\<close>)
  sends \<^verbatim>\<open>PUT /users/4\<close>; the target Cy has role \<open>user\<close>. The comment above the
  branch says moderators can edit basic users; the branch lets only the moderator's own
  id through, and the request ends in the final 403 "Access denied".
\<close>

theorem moderator_update_basic_user_denied:
  "findUnique directory 4 = Some cy \<and> role cy = user \<and> role bob = moderator
   \<and> checkUserPermissions directory (Some bob) PUT 4 = Respond 403 ''Access denied''"
  by (simp add: checkUserPermissions_def findUnique_def example_rows)

section \<open>Reading one user: the decision\<close>

text \<open>
  C8. For a target that exists: an admin or a moderator gets the target's record (200);
  a basic user gets it exactly when the target's id is the actor's own id, and is
  answered 403 "Access denied" otherwise.
\<close>

theorem view_one_decision:
  assumes "findUnique rows tid = Some target"
  shows "(role actor \<in> {admin, moderator} \<longrightarrow>
            getUserById rows actor tid = (200, UserReply (select_view target)))
       \<and> (role actor = user \<longrightarrow>
            (getUserById rows actor tid = (200, UserReply (select_view target))
               \<longleftrightarrow> id' target = id' actor)
          \<and> (id' target \<noteq> id' actor \<longrightarrow>
               getUserById rows actor tid = (403, Message ''Access denied'')))"
proof -
  have tid: "id' target = tid"
    using assms by (rule findUnique_id)
  show ?thesis
    using assms tid by (auto simp: getUserById_def)
qed

theorem view_one_decision_witness:
  "findUnique directory 4 = Some cy
   \<and> getUserById directory bob 4 = (200, UserReply (select_view cy))
   \<and> getUserById directory cy 4 = (200, UserReply (select_view cy))
   \<and> getUserById directory dee 4 = (403, Message ''Access denied'')"
proof -
  have h: "findUnique directory 4 = Some cy"
    by (simp add: findUnique_def example_rows)
  show ?thesis
    using h view_one_decision [OF h, of bob] view_one_decision [OF h, of cy]
      view_one_decision [OF h, of dee]
    by (simp add: example_rows)
qed

text \<open>
  C10. The handler looks the target up before it looks at the actor. For every
  authenticated actor and every id of the id column's range: an id with no row is
  answered 404 "User not found"; a row the actor may not see (actor role \<open>user\<close>,
  another id) is answered 403; so the status is 404 exactly when no account has that id.
\<close>

theorem view_one_existence_first:
  assumes "authenticate rows tok = Inr actor" and "int4 tid"
  shows "(findUnique rows tid = None \<longrightarrow>
            get_user_route rows tok tid = (404, Message ''User not found''))
       \<and> (findUnique rows tid \<noteq> None \<and> role actor = user \<and> id' actor \<noteq> tid \<longrightarrow>
            get_user_route rows tok tid = (403, Message ''Access denied''))
       \<and> (fst (get_user_route rows tok tid) = 404 \<longleftrightarrow> findUnique rows tid = None)"
  using assms by (auto simp: get_user_route_def getUserById_def split: option.splits)

theorem view_one_existence_first_witness:
  "authenticate directory (Token 5) = Inr dee
   \<and> int4 9 \<and> int4 4
   \<and> findUnique directory 9 = None
   \<and> get_user_route directory (Token 5) 9 = (404, Message ''User not found'')
   \<and> get_user_route directory (Token 5) 4 = (403, Message ''Access denied'')"
proof -
  have h: "authenticate directory (Token 5) = Inr dee"
    by (simp add: authenticate_def findUnique_def example_rows)
  have r: "int4 9" "int4 4"
    by (simp_all add: int4_def)
  have n: "findUnique directory 9 = None"
    by (simp add: findUnique_def example_rows)
  have s: "findUnique directory 4 \<noteq> None"
    by (simp add: findUnique_def example_rows)
  show ?thesis
    using h r n s view_one_existence_first [OF h r(1)] view_one_existence_first [OF h r(2)]
    by (simp add: example_rows)
qed

text \<open>
  An id outside the column's range has no row either, but there the lookup throws: the
  answer is 500 "Error fetching user".
\<close>

lemma view_one_out_of_range:
  assumes "authenticate rows tok = Inr actor" and "\<not> int4 tid"
    and "findUnique rows tid = None"
  shows "get_user_route rows tok tid = (500, Message ''Error fetching user'')"
  using assms by (simp add: get_user_route_def getUserById_def)

section \<open>Updating a user: facts about the handler\<close>

lemma write_fields_role: "role (write_fields now upd None u) = role u"
  by (simp add: write_fields_def)

lemma write_fields_id: "id' (write_fields now upd r u) = id' u"
  by (simp add: write_fields_def)

lemma prisma_update_roles:
  assumes "prisma_user_update now rows i upd = Some (u', rows')" and "u_role upd = None"
  shows "map role rows' = map role rows \<and> map id' rows' = map id' rows"
  using assms
  by (auto simp: prisma_user_update_def write_fields_def Let_def split: option.splits if_splits)

lemma updateUser_no_role_right:
  assumes "\<not> (role actor = admin \<or> (role actor = moderator \<and> role existing = user))"
    and "findUnique rows i = Some existing"
  shows "updateUser hash now rows actor i body = updateUser hash now rows actor i (body\<lparr>b_role := None\<rparr>)"
proof -
  have g: "(role actor = admin \<or> (role actor = moderator \<and> role existing = user)) = False"
    using assms(1) by blast
  show ?thesis
    using assms(2) by (simp add: updateUser_def g)
qed

lemma updateUser_roles:
  assumes "\<not> (role actor = admin \<or> (role actor = moderator \<and> role existing = user))"
    and "findUnique rows i = Some existing"
    and "updateUser hash now rows actor i body = (resp, rows')"
  shows "map role rows' = map role rows \<and> map id' rows' = map id' rows \<and> fst resp \<in> {200, 400, 500}"
proof -
  have g: "(role actor = admin \<or> (role actor = moderator \<and> role existing = user)) = False"
    using assms(1) by blast
  show ?thesis
    using assms(2,3)
    by (auto simp: updateUser_def g Let_def no_updates_def split: option.splits if_splits dest!: prisma_update_roles)
qed


lemma findUnique_self:
  assumes "authenticate rows tok = Inr actor"
  shows "findUnique rows (id' actor) = Some actor"
  using authenticate_Inr [OF assms] findUnique_id by fastforce

lemma put_permission_non_admin:
  assumes "role actor \<noteq> admin"
  shows "checkUserPermissions rows (Some actor) PUT tid =
           (if tid = id' actor then Next else Respond 403 ''Access denied'')"
  using assms by (cases "role actor") (auto simp: checkUserPermissions_def)

lemma put_route_non_admin:
  assumes "authenticate rows tok = Inr actor" and "role actor \<noteq> admin"
  shows "put_user_route hash now rows tok tid body =
           (if tid = id' actor then updateUser hash now rows actor tid body
            else ((403, Message ''Access denied''), rows))"
  using assms by (simp add: put_user_route_def put_permission_non_admin)

lemma self_guard:
  assumes "role actor \<noteq> admin"
  shows "\<not> (role actor = admin \<or> (role actor = moderator \<and> role actor = user))"
  using assms by auto

lemma stored_role_find:
  assumes "map role rows' = map role rows" and "map id' rows' = map id' rows"
  shows "map_option role (find (\<lambda>u. id' u = i) rows')
           = map_option role (find (\<lambda>u. id' u = i) rows)"
  using assms
proof (induction rows' arbitrary: rows)
  case Nil
  then show ?case by simp
next
  case (Cons a rows')
  from Cons.prems obtain b rs where rows: "rows = b # rs"
    by (cases rows) simp_all
  from Cons.prems rows have hd: "role a = role b" "id' a = id' b"
    and tl: "map role rows' = map role rs" "map id' rows' = map id' rs"
    by simp_all
  from Cons.IH [OF tl] hd rows show ?case by simp
qed

lemma stored_role_eq:
  assumes "map role rows' = map role rows" and "map id' rows' = map id' rows"
  shows "map_option role (findUnique rows' i) = map_option role (findUnique rows i)"
  unfolding findUnique_def using assms by (rule stored_role_find)

lemmas put_defs = put_user_route_def authenticate_def checkUserPermissions_def updateUser_def
  prisma_user_update_def findUnique_def truthy_def text_of_def includes_at_def no_updates_def
  write_fields_def too_long_def email_taken_def role_of_string_def select_view_def
  make_me_admin_def empty_body_def demo_hash_def password_rejected_def fit_def
  nothing_to_write_def int4_def

section \<open>Updating a user: the role sub-request\<close>

text \<open>
  C1, as the code decides it. Let the actor be authenticated with role \<open>moderator\<close>
  or \<open>user\<close> and send a \<^verbatim>\<open>PUT /users/:id\<close> that asks for the role
  \<open>moderator\<close> or \<open>admin\<close>. Then no stored role changes: the target keeps its role, and so does every other row. When the
  target is another account the answer is 403 "Access denied" and nothing is written.
  When the target is the actor's own account the request is not denied: the handler
  leaves the role out of the update and answers 200, or 400 or 500 when a field is
  rejected.
\<close>

theorem non_admin_update_keeps_role:
  assumes "authenticate rows tok = Inr actor"
    and "role actor \<in> {moderator, user}"
    and "b_role body \<in> {Some ''moderator'', Some ''admin''}"
    and "put_user_route hash now rows tok tid body = (resp, rows')"
  shows "map_option role (findUnique rows' tid) = map_option role (findUnique rows tid)
       \<and> map role rows' = map role rows \<and> map id' rows' = map id' rows
       \<and> (tid \<noteq> id' actor \<longrightarrow> resp = (403, Message ''Access denied'') \<and> rows' = rows)
       \<and> (tid = id' actor \<longrightarrow> fst resp \<in> {200, 400, 500})"
proof -
  have na: "role actor \<noteq> admin"
    using assms(2) by auto
  have route: "put_user_route hash now rows tok tid body =
           (if tid = id' actor then updateUser hash now rows actor tid body
            else ((403, Message ''Access denied''), rows))"
    using assms(1) na by (rule put_route_non_admin)
  have main: "map role rows' = map role rows \<and> map id' rows' = map id' rows
       \<and> (tid \<noteq> id' actor \<longrightarrow> resp = (403, Message ''Access denied'') \<and> rows' = rows)
       \<and> (tid = id' actor \<longrightarrow> fst resp \<in> {200, 400, 500})"
  proof (cases "tid = id' actor")
    case True
    have ex: "findUnique rows tid = Some actor"
      using True findUnique_self [OF assms(1)] by simp
    have "updateUser hash now rows actor tid body = (resp, rows')"
      using route assms(4) True by simp
    from updateUser_roles [OF self_guard [OF na] ex this] True
    show ?thesis by simp
  next
    case False
    then show ?thesis using route assms(4) by simp
  qed
  then show ?thesis
    using stored_role_eq by blast
qed

theorem non_admin_update_keeps_role_witness:
  "authenticate directory (Token 3) = Inr bob \<and> role bob \<in> {moderator, user}
   \<and> b_role make_me_admin \<in> {Some ''moderator'', Some ''admin''}
   \<and> put_user_route demo_hash 9000 directory (Token 3) 4 make_me_admin
       = ((403, Message ''Access denied''), directory)
   \<and> map_option role (findUnique directory 4) = Some user"
proof -
  have a: "authenticate directory (Token 3) = Inr bob"
    by (simp add: authenticate_def findUnique_def example_rows)
  have r: "role bob \<in> {moderator, user}"
    by (simp add: example_rows)
  have b: "b_role make_me_admin \<in> {Some ''moderator'', Some ''admin''}"
    by (simp add: make_me_admin_def)
  obtain resp rows' where p:
    "put_user_route demo_hash 9000 directory (Token 3) 4 make_me_admin = (resp, rows')"
    by (cases "put_user_route demo_hash 9000 directory (Token 3) 4 make_me_admin")
  have "id' bob \<noteq> 4" by (simp add: example_rows)
  with non_admin_update_keeps_role [OF a r b p]
  have "resp = (403, Message ''Access denied'') \<and> rows' = directory" by simp
  with p a r b show ?thesis by (simp add: findUnique_def example_rows)
qed

text \<open>
  The claim as written promises a denial. Dee (id 5, role \<open>user\<close>) sends
  \<^verbatim>\<open>PUT /users/5\<close> with \<^verbatim>\<open>role: 'admin'\<close>: the answer is 200.
\<close>

theorem self_escalation_not_denied_counterexample:
  "authenticate directory (Token 5) = Inr dee \<and> role dee = user
   \<and> b_role make_me_admin = Some ''admin''
   \<and> fst (fst (put_user_route demo_hash 9000 directory (Token 5) 5 make_me_admin)) = 200"
  by (simp add: put_defs example_rows)

text \<open>
  C2, as the code decides it. The handler's guard gives the right to change a role to
  an admin, and to a moderator when the target's current role is \<open>user\<close>. For an
  authenticated actor without that right on an existing target, a role in the body has
  no effect at all: response and table are those of the same request without the role.
  The role alone is dropped; the other fields are written whenever the request
  without the role writes them.
\<close>

theorem unauthorised_role_is_dropped:
  assumes "authenticate rows tok = Inr actor"
    and "findUnique rows tid = Some target"
    and "\<not> (role actor = admin \<or> (role actor = moderator \<and> role target = user))"
  shows "put_user_route hash now rows tok tid body
           = put_user_route hash now rows tok tid (body\<lparr>b_role := None\<rparr>)"
  using assms(1) updateUser_no_role_right [OF assms(3) assms(2)]
  by (simp add: put_user_route_def split: verdict.splits)

theorem unauthorised_role_is_dropped_witness:
  "authenticate directory (Token 5) = Inr dee \<and> findUnique directory 5 = Some dee
   \<and> \<not> (role dee = admin \<or> (role dee = moderator \<and> role dee = user))
   \<and> put_user_route demo_hash 9000 directory (Token 5) 5 make_me_admin
       = put_user_route demo_hash 9000 directory (Token 5) 5 (make_me_admin\<lparr>b_role := None\<rparr>)"
proof -
  have a: "authenticate directory (Token 5) = Inr dee"
    by (simp add: authenticate_def findUnique_def example_rows)
  have t: "findUnique directory 5 = Some dee"
    by (simp add: findUnique_def example_rows)
  have g: "\<not> (role dee = admin \<or> (role dee = moderator \<and> role dee = user))"
    by (simp add: example_rows)
  show ?thesis
    using a t g unauthorised_role_is_dropped [OF a t g] by simp
qed

text \<open>
  The claim as written promises that nothing is written. Dee's request above also
  carries \<^verbatim>\<open>first_name: 'Eve'\<close>: afterwards the stored first name is "Eve".
\<close>

theorem partial_apply_counterexample:
  "authenticate directory (Token 5) = Inr dee \<and> role dee = user
   \<and> b_role make_me_admin = Some ''admin'' \<and> b_first_name make_me_admin = Some ''Eve''
   \<and> map_option first_name (findUnique directory 5) = Some ''Dee''
   \<and> map_option first_name
        (findUnique (snd (put_user_route demo_hash 9000 directory (Token 5) 5 make_me_admin)) 5)
       = Some ''Eve''"
  by (simp add: put_defs example_rows)

section \<open>Logging in: the failures\<close>

text \<open>
  With a password in the body, the two failures get the same answer: an email that no
  account has, and the email of an account with a password that \<^verbatim>\<open>bcrypt.compare\<close>
  rejects, are both answered 401 \<^verbatim>\<open>{ message: 'Invalid credentials' }\<close> with no
  cookie.
\<close>

lemma login_supplied_password_same_answer:
  assumes "findUnique_email rows e1 = None"
    and "findUnique_email rows e2 = Some u"
    and "\<not> compare p2 (password u)"
  shows "login compare rows \<lparr>l_email = Some e1, l_password = pw1\<rparr>
           = login compare rows \<lparr>l_email = Some e2, l_password = Some p2\<rparr>
       \<and> login compare rows \<lparr>l_email = Some e2, l_password = Some p2\<rparr>
           = \<lparr>l_status = 401, l_reply = Message ''Invalid credentials'', l_cookie = None\<rparr>"
  using assms by (simp add: login_def)

text \<open>
  C9 at the input where the code departs from it. Two failed logins with no
  \<^verbatim>\<open>password\<close> in the body. For the email of Cy's account \<^verbatim>\<open>bcrypt.compare\<close>
  throws on the missing password and the \<^verbatim>\<open>catch\<close> answers 500 "Error during
  login"; for an email that no account has, the answer is 401 "Invalid credentials".
  The two answers differ, and the difference tells whether the account exists.
\<close>

theorem login_without_password_reveals_account:
  "findUnique_email directory ''cy@x.com'' = Some cy
   \<and> findUnique_email directory ''nobody@x.com'' = None
   \<and> login demo_compare directory \<lparr>l_email = Some ''cy@x.com'', l_password = None\<rparr>
       = \<lparr>l_status = 500, l_reply = Message ''Error during login'', l_cookie = None\<rparr>
   \<and> login demo_compare directory \<lparr>l_email = Some ''nobody@x.com'', l_password = None\<rparr>
       = \<lparr>l_status = 401, l_reply = Message ''Invalid credentials'', l_cookie = None\<rparr>"
  by (simp add: login_def findUnique_email_def example_rows)

section \<open>The edit diff: facts about the loop\<close>

lemma collect_changes_append:
  "collect_changes old new ks acc = acc @ collect_changes old new ks []"
proof (induction ks arbitrary: acc)
  case Nil
  then show ?case by simp
next
  case (Cons k ks)
  show ?case
    using Cons.IH [of "acc @ [\<lparr>field = k, oldValue = get old k, newValue = get new k\<rparr>]"]
      Cons.IH [of "[\<lparr>field = k, oldValue = get old k, newValue = get new k\<rparr>]"]
      Cons.IH [of acc]
    by simp
qed

lemma collect_changes_filter:
  "collect_changes old new ks [] =
     map (\<lambda>k. \<lparr>field = k, oldValue = get old k, newValue = get new k\<rparr>)
       (filter (\<lambda>k. \<not> strict_eq (get old k) (get new k)) ks)"
proof (induction ks)
  case Nil
  then show ?case by simp
next
  case (Cons k ks)
  show ?case
    using Cons.IH
      collect_changes_append [of old new ks "[\<lparr>field = k, oldValue = get old k, newValue = get new k\<rparr>]"]
    by simp
qed

lemma strict_eq_primitive: "primitive a \<or> primitive b \<Longrightarrow> strict_eq a b = (a = b)"
  by (cases a; cases b) (simp_all add: primitive_def)

lemma distinct_first_occurrences: "distinct (first_occurrences ks)"
  by (simp add: first_occurrences_def)

lemma set_first_occurrences: "set (first_occurrences ks) = set ks"
  by (simp add: first_occurrences_def)

lemma distinct_object_keys: "distinct (object_keys obj)"
  by (auto simp: object_keys_def Let_def distinct_first_occurrences)

lemma set_object_keys: "set (object_keys obj) = fst ` set obj"
  by (auto simp: object_keys_def Let_def set_first_occurrences)

lemma edit_changes_filter:
  "edit_changes old new =
     map (\<lambda>k. \<lparr>field = k, oldValue = get old k, newValue = get new k\<rparr>)
       (filter (\<lambda>k. \<not> strict_eq (get old k) (get new k)) (object_keys new))"
  unfolding edit_changes_def by (rule collect_changes_filter)

lemma edit_changes_fields:
  "field ` set (edit_changes old new)
     = {k \<in> set (object_keys new). \<not> strict_eq (get old k) (get new k)}"
  by (auto simp: edit_changes_filter image_iff)

lemma edit_changes_entries:
  "c \<in> set (edit_changes old new) \<Longrightarrow>
     field c \<in> set (object_keys new) \<and> oldValue c = get old (field c)
     \<and> newValue c = get new (field c)"
  by (auto simp: edit_changes_filter)

lemma edit_changes_order:
  "map field (edit_changes old new)
     = filter (\<lambda>k. k \<in> field ` set (edit_changes old new)) (object_keys new)"
proof -
  have "map field (edit_changes old new)
          = filter (\<lambda>k. \<not> strict_eq (get old k) (get new k)) (object_keys new)"
    by (simp add: edit_changes_filter comp_def)
  also have "\<dots> = filter (\<lambda>k. k \<in> field ` set (edit_changes old new)) (object_keys new)"
    by (rule filter_cong) (auto simp: edit_changes_fields)
  finally show ?thesis .
qed

lemma edit_changes_distinct: "distinct (map field (edit_changes old new))"
proof -
  have "map field (edit_changes old new)
          = filter (\<lambda>k. \<not> strict_eq (get old k) (get new k)) (object_keys new)"
    by (simp add: edit_changes_filter comp_def)
  then show ?thesis
    by (simp add: distinct_object_keys)
qed

lemma logUserEdit_written:
  "logUserEdit now users tbl a t old new ip =
     (if edit_changes old new = [] then Some (None, tbl)
      else if create_rejected users a (Some t) ip then None
      else
        Some
          (Some \<lparr>log_id = next_id tbl, actor_user_id = a, action_type = ''EDIT_USER'',
                 target_user_id = Some t, metadata = Changes (edit_changes old new),
                 ip_address = map_option (fit 45) ip, log_created_at = now\<rparr>,
           tbl\<lparr>logs := logs tbl @
                   [\<lparr>log_id = next_id tbl, actor_user_id = a, action_type = ''EDIT_USER'',
                     target_user_id = Some t, metadata = Changes (edit_changes old new),
                     ip_address = map_option (fit 45) ip, log_created_at = now\<rparr>],
               next_id := next_id tbl + 1\<rparr>))"
  by (simp add: logUserEdit_def logUserAction_def edit_changes_def AUDIT_TYPES_def Let_def)

lemma image_keys:
  "object_keys image_before = [''id'', ''email'', ''password'']"
  "object_keys image_same = [''id'', ''email'']"
  "object_keys image_after = [''id'', ''email'']"
  by (simp_all add: object_keys_def first_occurrences_def array_index_def digit_def
      image_before_def image_same_def image_after_def)

lemma image_values:
  "get image_before ''id'' = Num 2" "get image_before ''email'' = Str ''a@x.com''"
  "get image_before ''password'' = Str ''h1''"
  "get image_same ''id'' = Num 2" "get image_same ''email'' = Str ''a@x.com''"
  "get image_same ''password'' = Undefined"
  "get image_after ''id'' = Num 2" "get image_after ''email'' = Str ''b@x.com''"
  by (simp_all add: get_def image_before_def image_same_def image_after_def)

lemma changes_before_after:
  "edit_changes image_before image_after
     = [\<lparr>field = ''email'', oldValue = Str ''a@x.com'', newValue = Str ''b@x.com''\<rparr>]"
  by (simp add: edit_changes_def image_keys image_values)

lemma changes_before_same: "edit_changes image_before image_same = []"
  by (simp add: edit_changes_def image_keys image_values)

text \<open>
  Two reads of one row give two \<^verbatim>\<open>Date\<close> objects for the same instant. The loop
  compares them with \<^verbatim>\<open>!==\<close>, that is, by identity, and records a change whose
  old and new value are the same instant: for the images of a row that did not change,
  read before and after an update, \<^verbatim>\<open>logUserEdit\<close> writes an entry.
\<close>

lemma date_objects_compared_by_identity:
  "edit_changes [(''created_at'', Date 1 1000)] [(''created_at'', Date 2 1000)]
     = [\<lparr>field = ''created_at'', oldValue = Date 1 1000, newValue = Date 2 1000\<rparr>]"
  by (simp add: edit_changes_def object_keys_def first_occurrences_def array_index_def
      digit_def get_def)

section \<open>The edit diff and the audit entry\<close>

text \<open>
  C5, as the code computes it. The loop runs over the fields of the post-image, in
  the order of \<^verbatim>\<open>Object.keys\<close>. Every change it records names a field of the
  post-image, with the value the pre-image has for it and the value the post-image has;
  the recorded fields are in that order and each is recorded at most once. For a field
  of the post-image whose value, before or after, is a string, a number, a boolean,
  \<^verbatim>\<open>null\<close> or \<^verbatim>\<open>undefined\<close>, it is recorded exactly when the two values differ.
  A field that only the pre-image has is never recorded. \<^verbatim>\<open>logUserEdit\<close> writes
  nothing when no change was recorded; otherwise it asks for one \<^verbatim>\<open>EDIT_USER\<close>
  entry carrying the changes, which is appended unless the database rejects it.
\<close>

theorem edit_diff_changes:
  "(\<forall>c \<in> set (edit_changes old new).
       field c \<in> set (object_keys new) \<and> oldValue c = get old (field c)
       \<and> newValue c = get new (field c))
   \<and> map field (edit_changes old new)
       = filter (\<lambda>k. k \<in> field ` set (edit_changes old new)) (object_keys new)
   \<and> distinct (map field (edit_changes old new))
   \<and> (\<forall>k \<in> set (object_keys new). primitive (get old k) \<or> primitive (get new k) \<longrightarrow>
         (k \<in> field ` set (edit_changes old new) \<longleftrightarrow> get old k \<noteq> get new k))
   \<and> logUserEdit now users tbl a t old new ip =
       (if edit_changes old new = [] then Some (None, tbl)
        else if create_rejected users a (Some t) ip then None
        else
          Some
            (Some \<lparr>log_id = next_id tbl, actor_user_id = a, action_type = ''EDIT_USER'',
                   target_user_id = Some t, metadata = Changes (edit_changes old new),
                   ip_address = map_option (fit 45) ip, log_created_at = now\<rparr>,
             tbl\<lparr>logs := logs tbl @
                     [\<lparr>log_id = next_id tbl, actor_user_id = a, action_type = ''EDIT_USER'',
                       target_user_id = Some t, metadata = Changes (edit_changes old new),
                       ip_address = map_option (fit 45) ip, log_created_at = now\<rparr>],
                 next_id := next_id tbl + 1\<rparr>))"
proof (intro conjI)
  show "\<forall>c \<in> set (edit_changes old new).
       field c \<in> set (object_keys new) \<and> oldValue c = get old (field c)
       \<and> newValue c = get new (field c)"
    using edit_changes_entries by blast
  show "map field (edit_changes old new)
       = filter (\<lambda>k. k \<in> field ` set (edit_changes old new)) (object_keys new)"
    by (rule edit_changes_order)
  show "distinct (map field (edit_changes old new))"
    by (rule edit_changes_distinct)
  show "\<forall>k \<in> set (object_keys new). primitive (get old k) \<or> primitive (get new k) \<longrightarrow>
         (k \<in> field ` set (edit_changes old new) \<longleftrightarrow> get old k \<noteq> get new k)"
    by (simp add: edit_changes_fields strict_eq_primitive)
qed (rule logUserEdit_written)

theorem edit_diff_changes_witness:
  "''email'' \<in> set (object_keys image_after)
   \<and> primitive (get image_after ''email'')
   \<and> get image_before ''email'' \<noteq> get image_after ''email''
   \<and> ''email'' \<in> field ` set (edit_changes image_before image_after)
   \<and> edit_changes image_before image_after
       = [\<lparr>field = ''email'', oldValue = Str ''a@x.com'', newValue = Str ''b@x.com''\<rparr>]
   \<and> \<not> create_rejected directory 1 (Some 4) None
   \<and> logUserEdit 7000 directory empty_trail 1 4 image_before image_after None
       = Some
           (Some \<lparr>log_id = 1, actor_user_id = 1, action_type = ''EDIT_USER'',
                  target_user_id = Some 4,
                  metadata = Changes [\<lparr>field = ''email'', oldValue = Str ''a@x.com'',
                                       newValue = Str ''b@x.com''\<rparr>],
                  ip_address = None, log_created_at = 7000\<rparr>,
            \<lparr>logs = [\<lparr>log_id = 1, actor_user_id = 1, action_type = ''EDIT_USER'',
                      target_user_id = Some 4,
                      metadata = Changes [\<lparr>field = ''email'', oldValue = Str ''a@x.com'',
                                           newValue = Str ''b@x.com''\<rparr>],
                      ip_address = None, log_created_at = 7000\<rparr>],
             next_id = 2\<rparr>)"
proof -
  have k: "''email'' \<in> set (object_keys image_after)"
    by (simp add: image_keys)
  have v: "get image_before ''email'' = Str ''a@x.com''"
    "get image_after ''email'' = Str ''b@x.com''"
    by (simp_all add: get_def image_before_def image_after_def)
  have p: "primitive (get image_after ''email'')"
    by (simp add: v primitive_def)
  have d: "get image_before ''email'' \<noteq> get image_after ''email''"
    by (simp add: v)
  have c: "edit_changes image_before image_after
       = [\<lparr>field = ''email'', oldValue = Str ''a@x.com'', newValue = Str ''b@x.com''\<rparr>]"
    by (simp add: changes_before_after)
  have r: "\<not> create_rejected directory 1 (Some 4) None"
    by (simp add: create_rejected_def too_long_def findUnique_def example_rows)
  note t = edit_diff_changes [of image_before image_after 7000 directory empty_trail 1 4 None]
  from t have m: "\<forall>k \<in> set (object_keys image_after).
      primitive (get image_before k) \<or> primitive (get image_after k) \<longrightarrow>
        (k \<in> field ` set (edit_changes image_before image_after)
           \<longleftrightarrow> get image_before k \<noteq> get image_after k)"
    by (elim conjE)
  from m k p d have f: "''email'' \<in> field ` set (edit_changes image_before image_after)"
    by blast
  from t have "logUserEdit 7000 directory empty_trail 1 4 image_before image_after None =
       (if edit_changes image_before image_after = [] then Some (None, empty_trail)
        else if create_rejected directory 1 (Some 4) None then None
        else
          Some
            (Some \<lparr>log_id = next_id empty_trail, actor_user_id = 1, action_type = ''EDIT_USER'',
                   target_user_id = Some 4,
                   metadata = Changes (edit_changes image_before image_after),
                   ip_address = map_option (fit 45) None, log_created_at = 7000\<rparr>,
             empty_trail\<lparr>logs := logs empty_trail @
                     [\<lparr>log_id = next_id empty_trail, actor_user_id = 1,
                       action_type = ''EDIT_USER'', target_user_id = Some 4,
                       metadata = Changes (edit_changes image_before image_after),
                       ip_address = map_option (fit 45) None, log_created_at = 7000\<rparr>],
                 next_id := next_id empty_trail + 1\<rparr>))"
    by (elim conjE)
  then have w: "logUserEdit 7000 directory empty_trail 1 4 image_before image_after None
       = Some
           (Some \<lparr>log_id = 1, actor_user_id = 1, action_type = ''EDIT_USER'',
                  target_user_id = Some 4,
                  metadata = Changes [\<lparr>field = ''email'', oldValue = Str ''a@x.com'',
                                       newValue = Str ''b@x.com''\<rparr>],
                  ip_address = None, log_created_at = 7000\<rparr>,
            \<lparr>logs = [\<lparr>log_id = 1, actor_user_id = 1, action_type = ''EDIT_USER'',
                      target_user_id = Some 4,
                      metadata = Changes [\<lparr>field = ''email'', oldValue = Str ''a@x.com'',
                                           newValue = Str ''b@x.com''\<rparr>],
                      ip_address = None, log_created_at = 7000\<rparr>],
             next_id = 2\<rparr>)"
    by (simp add: c r empty_trail_def)
  from k p d f c r w show ?thesis
    by (intro conjI)
qed

text \<open>
  The claim as written asks for every field whose values differ. A password change:
  the pre-image carries the old hash, the post-image (selected without the password)
  carries none. The values of \<^verbatim>\<open>password\<close> differ, the diff is empty, and nothing
  is written.
\<close>

theorem edit_diff_counterexample:
  "get image_before ''password'' = Str ''h1''
   \<and> get image_same ''password'' = Undefined
   \<and> get image_before ''password'' \<noteq> get image_same ''password''
   \<and> edit_changes image_before image_same = []
   \<and> logUserEdit 7000 directory empty_trail 1 4 image_before image_same None
       = Some (None, empty_trail)"
  by (simp add: image_values changes_before_same logUserEdit_written)

section \<open>Reading the audit trail: facts about the query\<close>

lemma order_newest_first_sorted:
  "sorted_wrt (\<lambda>a b. log_created_at b \<le> log_created_at a) (order_newest_first rows)"
proof -
  have "sorted (map (\<lambda>e. - log_created_at e) (order_newest_first rows))"
    unfolding order_newest_first_def by (rule sorted_sort_key)
  then show ?thesis
    by (simp add: sorted_map)
qed

lemma order_newest_first_mset: "mset (order_newest_first rows) = mset rows"
  by (simp add: order_newest_first_def)

lemma order_newest_first_length: "length (order_newest_first rows) = length rows"
  by (simp add: order_newest_first_def)

lemma order_newest_first_admits:
  assumes "sorted_wrt (\<lambda>a b. log_created_at b \<le> log_created_at a) out"
  shows "order_newest_first out = out"
proof -
  have "sorted (map (\<lambda>e. - log_created_at e) out)"
    using assms by (simp add: sorted_map)
  then show ?thesis
    unfolding order_newest_first_def by (rule sort_key_id_if_sorted)
qed

lemma findMany_sorted:
  assumes "findMany f table skip take_n = Some found"
  shows "sorted_wrt (\<lambda>a b. log_created_at b \<le> log_created_at a) found"
proof -
  let ?ord = "order_newest_first (filter (matches f) table)"
  have s: "sorted_wrt (\<lambda>a b. log_created_at b \<le> log_created_at a) ?ord"
    by (rule order_newest_first_sorted)
  show ?thesis
  proof (cases "0 \<le> take_n")
    case True
    then have "found = take (nat take_n) (drop (nat skip) ?ord)"
      using assms by (simp add: findMany_def split: if_splits)
    then show ?thesis
      using s by (simp add: sorted_wrt_take sorted_wrt_drop)
  next
    case False
    then have f: "found = rev (take (nat (- take_n)) (drop (nat skip) (rev ?ord)))"
      using assms by (simp add: findMany_def split: if_splits)
    have "sorted_wrt (\<lambda>a b. log_created_at a \<le> log_created_at b) (rev ?ord)"
      using s by (simp add: sorted_wrt_rev)
    then have "sorted_wrt (\<lambda>a b. log_created_at a \<le> log_created_at b)
                 (take (nat (- take_n)) (drop (nat skip) (rev ?ord)))"
      by (simp add: sorted_wrt_take sorted_wrt_drop)
    then show ?thesis
      unfolding f by (simp add: sorted_wrt_rev)
  qed
qed

lemma order_newest_first_set: "set (order_newest_first rows) = set rows"
  by (simp add: order_newest_first_def)

lemma findMany_subset:
  assumes "findMany f table skip take_n = Some found"
  shows "set found \<subseteq> {e \<in> set table. matches f e}"
proof -
  let ?ord = "order_newest_first (filter (matches f) table)"
  have "set found \<subseteq> set ?ord"
  proof (cases "0 \<le> take_n")
    case True
    then have "found = take (nat take_n) (drop (nat skip) ?ord)"
      using assms by (simp add: findMany_def split: if_splits)
    then show ?thesis
      using set_take_subset set_drop_subset by fastforce
  next
    case False
    then have "found = rev (take (nat (- take_n)) (drop (nat skip) (rev ?ord)))"
      using assms by (simp add: findMany_def split: if_splits)
    then have "set found \<subseteq> set (rev ?ord)"
      using set_take_subset set_drop_subset by fastforce
    then show ?thesis by simp
  qed
  then show ?thesis
    by (auto simp: order_newest_first_set)
qed

lemma getAuditLogs_found:
  assumes "getAuditLogs table q = (200, Logs found pg)"
  shows "\<exists>skip take_n. findMany (build_filters q) table skip take_n = Some found"
  using assms by (auto simp: getAuditLogs_def Let_def split: option.splits)

text \<open>
  What the query fixes about the order: the entries of every answer are in
  non-increasing \<^verbatim>\<open>created_at\<close> order, newest first, and all of them match the
  filters.
\<close>

lemma getAuditLogs_sorted:
  assumes "getAuditLogs table q = (200, Logs found pg)"
  shows "sorted_wrt (\<lambda>a b. log_created_at b \<le> log_created_at a) found
       \<and> set found \<subseteq> {e \<in> set table. matches (build_filters q) e}"
  using getAuditLogs_found [OF assms] findMany_sorted findMany_subset by blast

lemma build_filters_page [simp]:
  "build_filters (q\<lparr>q_page := a, q_limit := b\<rparr>) = build_filters q"
  by (simp add: build_filters_def)

lemma count_where_length:
  "count_where (build_filters q) table = int (length (matching_newest_first q table))"
  by (simp add: count_where_def matching_newest_first_def order_newest_first_length)

lemma page_in_range:
  assumes "1 \<le> s" and "1 \<le> p"
  shows "getAuditLogs table (q\<lparr>q_page := Some p, q_limit := Some s\<rparr>)
     = (200, Logs (take (nat s) (drop (nat ((p - 1) * s)) (matching_newest_first q table)))
               \<lparr>p_total = count_where (build_filters q) table, p_page = p, p_limit = s,
                p_pages = Finite \<lceil>real_of_int (count_where (build_filters q) table)
                                    / real_of_int s\<rceil>\<rparr>)"
proof -
  have k: "0 \<le> (p - 1) * s"
    using assms by simp
  have c: "math_ceil_div t s = Finite \<lceil>real_of_int t / real_of_int s\<rceil>" for t
    using assms(1) by (simp add: math_ceil_div_def ceiling_divide_eq_div)
  show ?thesis
    using k assms(1)
    by (simp add: getAuditLogs_def findMany_def matching_newest_first_def c Let_def)
qed

lemma page_below_range:
  assumes "1 \<le> s" and "p < 1"
  shows "getAuditLogs table (q\<lparr>q_page := Some p, q_limit := Some s\<rparr>)
     = (500, Failure ''Error fetching audit logs'')"
proof -
  have "(p - 1) * s < 0"
    using assms by (simp add: mult_neg_pos)
  then show ?thesis
    by (simp add: getAuditLogs_def findMany_def)
qed

lemma page_length:
  assumes "1 \<le> s" and "1 \<le> p"
  shows "int (length (take (nat s) (drop (nat ((p - 1) * s)) xs)))
           = max 0 (min (p * s) (int (length xs)) - (p - 1) * s)"
proof -
  have k: "0 \<le> (p - 1) * s"
    using assms by simp
  have ps: "p * s = (p - 1) * s + s"
    by (simp add: algebra_simps)
  have l: "length (take (nat s) (drop (nat ((p - 1) * s)) xs))
             = min (length xs - nat ((p - 1) * s)) (nat s)"
    by simp
  show ?thesis
    unfolding ps l using k assms(1) by linarith
qed

lemma page_nth:
  assumes "i < length (take n (drop k xs))"
  shows "take n (drop k xs) ! i = xs ! (k + i)"
proof -
  have "i < length xs - k" and "i < n"
    using assms by simp_all
  then have "i < n" and "k \<le> length xs"
    by linarith+
  then show ?thesis by simp
qed

lemma page_above_range:
  assumes "1 \<le> s" and "\<lceil>real_of_int (int (length xs)) / real_of_int s\<rceil> < p"
  shows "take (nat s) (drop (nat ((p - 1) * s)) xs) = []"
proof -
  have "\<lceil>real_of_int (int (length xs)) / real_of_int s\<rceil> \<le> p - 1"
    using assms(2) by simp
  then have "real_of_int (int (length xs)) / real_of_int s \<le> real_of_int (p - 1)"
    by (simp only: ceiling_le_iff)
  then have "real_of_int (int (length xs)) \<le> real_of_int (p - 1) * real_of_int s"
    using assms(1) by (simp add: pos_divide_le_eq)
  then have "real_of_int (int (length xs)) \<le> real_of_int ((p - 1) * s)"
    by simp
  then have "int (length xs) \<le> (p - 1) * s"
    by (simp only: of_int_le_iff)
  then have "length xs \<le> nat ((p - 1) * s)"
    by simp
  then show ?thesis by simp
qed

lemma trail25_ordered:
  "matching_newest_first all_logs trail25
     = map (\<lambda>n. entry_at n (1000 * n))
         [25, 24, 23, 22, 21, 20, 19, 18, 17, 16, 15, 14,
          13, 12, 11, 10, 9, 8, 7, 6, 5, 4, 3, 2, 1]"
  by code_simp

lemma trail25_count: "count_where (build_filters all_logs) trail25 = 25"
  by code_simp

section \<open>Reading the audit trail: pages\<close>

text \<open>
  C6, as the code computes it. Let \<open>t\<close> be the number of entries that match the
  filters and \<open>s \<ge> 1\<close> the page size. For a page number \<open>p \<ge> 1\<close> the answer is 200;
  it reports the total \<open>t\<close> and the page count \<open>\<lceil>t / s\<rceil>\<close>; its entries are those
  at positions \<open>(p - 1) * s + 1\<close> to \<open>min (p * s) t\<close> of the ordered result (indices
  \<open>(p - 1) * s + i\<close>, counted from 0, in the statement), none when that range is
  empty. A page number above the page count gets the empty list with the same totals.
  A page number below 1 makes \<^verbatim>\<open>skip\<close> negative; the query throws and the handler's
  \<^verbatim>\<open>catch\<close> answers 500 "Error fetching audit logs".
\<close>

theorem audit_pagination:
  fixes table :: "AuditLog list" and q :: log_query and p s :: int
  defines "t \<equiv> count_where (build_filters q) table"
    and "ordered \<equiv> matching_newest_first q table"
    and "answer \<equiv> getAuditLogs table (q\<lparr>q_page := Some p, q_limit := Some s\<rparr>)"
  assumes "1 \<le> s"
  shows "(1 \<le> p \<longrightarrow>
            answer = (200, Logs (take (nat s) (drop (nat ((p - 1) * s)) ordered))
                             \<lparr>p_total = t, p_page = p, p_limit = s,
                              p_pages = Finite \<lceil>real_of_int t / real_of_int s\<rceil>\<rparr>)
          \<and> int (length (logs_of answer)) = max 0 (min (p * s) t - (p - 1) * s)
          \<and> (\<forall>i < length (logs_of answer).
                logs_of answer ! i = ordered ! (nat ((p - 1) * s) + i)))
       \<and> (\<lceil>real_of_int t / real_of_int s\<rceil> < p \<longrightarrow>
            answer = (200, Logs []
                             \<lparr>p_total = t, p_page = p, p_limit = s,
                              p_pages = Finite \<lceil>real_of_int t / real_of_int s\<rceil>\<rparr>))
       \<and> (p < 1 \<longrightarrow> answer = (500, Failure ''Error fetching audit logs''))"
proof -
  have tl: "t = int (length ordered)"
    unfolding t_def ordered_def by (rule count_where_length)
  have inr: "answer = (200, Logs (take (nat s) (drop (nat ((p - 1) * s)) ordered))
                             \<lparr>p_total = t, p_page = p, p_limit = s,
                              p_pages = Finite \<lceil>real_of_int t / real_of_int s\<rceil>\<rparr>)"
    if "1 \<le> p"
    unfolding answer_def t_def ordered_def using \<open>1 \<le> s\<close> that by (rule page_in_range)
  have lo: "logs_of answer = take (nat s) (drop (nat ((p - 1) * s)) ordered)" if "1 \<le> p"
    using inr [OF that] by (simp add: logs_of_def)
  have len: "int (length (logs_of answer)) = max 0 (min (p * s) t - (p - 1) * s)" if "1 \<le> p"
    unfolding lo [OF that] tl using \<open>1 \<le> s\<close> that by (rule page_length)
  have nth: "\<forall>i < length (logs_of answer). logs_of answer ! i = ordered ! (nat ((p - 1) * s) + i)"
    if "1 \<le> p"
    unfolding lo [OF that] using page_nth by blast
  have above: "answer = (200, Logs []
                             \<lparr>p_total = t, p_page = p, p_limit = s,
                              p_pages = Finite \<lceil>real_of_int t / real_of_int s\<rceil>\<rparr>)"
    if h: "\<lceil>real_of_int t / real_of_int s\<rceil> < p"
  proof -
    have "0 \<le> real_of_int t / real_of_int s"
      using \<open>1 \<le> s\<close> tl by simp
    then have "0 \<le> \<lceil>real_of_int t / real_of_int s\<rceil>"
      by simp
    then have p1: "1 \<le> p" using h by linarith
    have "take (nat s) (drop (nat ((p - 1) * s)) ordered) = []"
      using \<open>1 \<le> s\<close> h unfolding tl by (rule page_above_range)
    then show ?thesis using inr [OF p1] by simp
  qed
  have below: "answer = (500, Failure ''Error fetching audit logs'')" if "p < 1"
    unfolding answer_def using \<open>1 \<le> s\<close> that by (rule page_below_range)
  show ?thesis
    using inr len nth above below by blast
qed

theorem audit_pagination_witness:
  "(1::int) \<le> 20
   \<and> map log_id (logs_of (getAuditLogs trail25 (all_logs\<lparr>q_page := Some 1, q_limit := Some 20\<rparr>)))
       = [25, 24, 23, 22, 21, 20, 19, 18, 17, 16, 15, 14, 13, 12, 11, 10, 9, 8, 7, 6]
   \<and> snd (getAuditLogs trail25 (all_logs\<lparr>q_page := Some 2, q_limit := Some 20\<rparr>))
       = Logs (map (\<lambda>n. entry_at n (1000 * n)) [5, 4, 3, 2, 1])
           \<lparr>p_total = 25, p_page = 2, p_limit = 20, p_pages = Finite 2\<rparr>
   \<and> getAuditLogs trail25 (all_logs\<lparr>q_page := Some 3, q_limit := Some 20\<rparr>)
       = (200, Logs [] \<lparr>p_total = 25, p_page = 3, p_limit = 20, p_pages = Finite 2\<rparr>)
   \<and> getAuditLogs trail25 (all_logs\<lparr>q_page := Some 0, q_limit := Some 20\<rparr>)
       = (500, Failure ''Error fetching audit logs'')"
proof -
  have s: "(1::int) \<le> 20" by simp
  have c: "\<lceil>real_of_int 25 / real_of_int 20\<rceil> = 2"
    by (simp add: ceiling_divide_eq_div)
  show ?thesis
    using s audit_pagination [OF s, where p = 1 and q = all_logs and table = trail25]
      audit_pagination [OF s, where p = 2 and q = all_logs and table = trail25]
      audit_pagination [OF s, where p = 3 and q = all_logs and table = trail25]
      audit_pagination [OF s, where p = 0 and q = all_logs and table = trail25]
    by (simp add: trail25_ordered trail25_count c logs_of_def entry_at_def)
qed

text \<open>
  The claim as written promises an empty list with the totals for a page number below
  1. Twenty-five entries, page size 20, page 0: the answer is the 500 error.
\<close>

theorem audit_page_zero_counterexample:
  "count_where (build_filters all_logs) trail25 = 25
   \<and> getAuditLogs trail25 (all_logs\<lparr>q_page := Some 0, q_limit := Some 20\<rparr>)
       = (500, Failure ''Error fetching audit logs'')
   \<and> getAuditLogs trail25 (all_logs\<lparr>q_page := Some 0, q_limit := Some 20\<rparr>)
       \<noteq> (200, Logs [] \<lparr>p_total = 25, p_page = 0, p_limit = 20, p_pages = Finite 2\<rparr>)"
  by (simp add: trail25_count getAuditLogs_def findMany_def)

end
